theory Spec2Isabelle
  imports Main
begin

section \<open>Arrays, errors and reshape\<close>

text \<open>
  The functions of \<^verbatim>\<open>projector_utils/merge.py\<close> work on numpy arrays. An array is
  embedded as its shape together with its elements in row-major (C) order. That sequence
  is what \<^verbatim>\<open>arr.ravel()\<close> shows; a C-order reshape keeps it and only replaces the shape.
  Two arrays are equal element-for-element when shape and element sequence coincide.

  Every \<^verbatim>\<open>raise\<close> of the source is a \<^verbatim>\<open>ValueError\<close>; the constructors below tell the
  raising sites apart. \<open>ReshapeError\<close> is the \<^verbatim>\<open>ValueError\<close> raised inside numpy's
  \<^verbatim>\<open>reshape\<close>, \<open>ReshapeTypeError\<close> the \<^verbatim>\<open>TypeError\<close> of a \<^verbatim>\<open>reshape\<close> call without any
  argument, and the last two belong to \<^verbatim>\<open>decomp.tsvd\<close>.
\<close>

datatype error =
    InvalidAxisRange
  | InvalidAxisIndex
  | ShapeMismatch
  | ReshapeError
  | ReshapeTypeError
  | InvalidSplitPoint
  | NumericalFailure

record 'a ndarray =
  shape :: "nat list"
  elems :: "'a list"

definition ndim :: "'a ndarray \<Rightarrow> int" where
  "ndim arr = int (length (shape arr))"

definition size_of :: "'a ndarray \<Rightarrow> nat" where
  "size_of arr = prod_list (shape arr)"

definition wf_ndarray :: "'a ndarray \<Rightarrow> bool" where
  "wf_ndarray arr \<longleftrightarrow> length (elems arr) = size_of arr"

text \<open>
  How numpy resolves the dimensions requested of a C-order reshape: a negative entry is
  the one dimension to infer; two of them are refused; the inferred dimension is the
  array size divided by the product of the given ones and is refused when that product
  is zero or does not divide the size; with no negative entry the product of the
  dimensions has to be the array size.
\<close>

definition newshape :: "'a ndarray \<Rightarrow> int list \<Rightarrow> error + 'a ndarray" where
  "newshape arr dims =
     (let s_original = int (size_of arr);
          s_known = prod_list (filter (\<lambda>d. 0 \<le> d) dims);
          n_unknown = length (filter (\<lambda>d. d < 0) dims)
      in if 1 < n_unknown then Inl ReshapeError
         else if n_unknown = 1 then
           (if s_known = 0 \<or> s_original mod s_known \<noteq> 0 then Inl ReshapeError
            else Inr (arr\<lparr>shape :=
                   map (\<lambda>d. nat (if d < 0 then s_original div s_known else d)) dims\<rparr>))
         else if s_original \<noteq> s_known then Inl ReshapeError
         else Inr (arr\<lparr>shape := map nat dims\<rparr>))"

text \<open>
  The method call \<^verbatim>\<open>arr.reshape(*dims)\<close> with the dimensions as separate integer
  arguments, as the source writes it. The method wants at least one argument: when the
  unpacked sequences are all empty the call is \<^verbatim>\<open>arr.reshape()\<close>, which raises
  \<^verbatim>\<open>TypeError\<close>.

  numpy further refuses a request beyond its capacity: more than \<^verbatim>\<open>NPY_MAXDIMS\<close> axes
  or a size beyond its index type. Both depend on the numpy build and on the element
  type, which the sources do not fix, and every existing array has passed the same checks
  when it was created. They are not represented here. A request whose dimensions are
  those of the argument with adjacent axes merged, or those of an array the argument was
  grouped from, is within capacity whenever these arrays are; a statement that promises
  an array with further axes states the bound it relies on.
\<close>

definition reshape :: "'a ndarray \<Rightarrow> int list \<Rightarrow> error + 'a ndarray" where
  "reshape arr dims = (if dims = [] then Inl ReshapeTypeError else newshape arr dims)"

text \<open>
  \<^verbatim>\<open>NPY_MAXDIMS\<close> is 32 in numpy 1 and 64 since numpy 2: an array of at most 32 axes is
  within the limit of either.
\<close>

definition NPY_MAXDIMS :: nat where
  "NPY_MAXDIMS = 32"

section \<open>merge.py: group and ungroup\<close>

text \<open>
  \<^verbatim>\<open>group(arr, begin, end)\<close>: both indices are Python integers; a negative one gets
  \<^verbatim>\<open>arr.ndim\<close> added once, then the range check raises or the array is reshaped with
  \<^verbatim>\<open>-1\<close> in place of the merged axes.
\<close>

definition group :: "'a ndarray \<Rightarrow> int \<Rightarrow> int \<Rightarrow> error + 'a ndarray" where
  "group arr b e =
     (let b1 = (if b < 0 then b + ndim arr else b);
          e1 = (if e < 0 then e + ndim arr else e)
      in if \<not> (0 \<le> b1 \<and> b1 < e1 \<and> e1 \<le> ndim arr) then Inl InvalidAxisRange
         else reshape arr
                (map int (take (nat b1) (shape arr)) @ [- 1] @
                 map int (drop (nat e1) (shape arr))))"

text \<open>
  \<^verbatim>\<open>ungroup(arr, target, split)\<close>: the target check comes first, then the product
  check, then the reshape with the entries of \<^verbatim>\<open>split\<close> in place of the target axis.
\<close>

definition ungroup :: "'a ndarray \<Rightarrow> int \<Rightarrow> int list \<Rightarrow> error + 'a ndarray" where
  "ungroup arr target split =
     (let t1 = (if target < 0 then target + ndim arr else target)
      in if \<not> (0 \<le> t1 \<and> t1 < ndim arr) then Inl InvalidAxisIndex
         else let nl = int (shape arr ! nat t1)
              in if nl \<noteq> prod_list split then Inl ShapeMismatch
                 else reshape arr
                        (map int (take (nat t1) (shape arr)) @ split @
                         map int (drop (nat t1 + 1) (shape arr))))"

text \<open>The index a negative axis index stands for: \<^verbatim>\<open>if idx < 0: idx += ndim\<close>.\<close>

definition normalized :: "'a ndarray \<Rightarrow> int \<Rightarrow> int" where
  "normalized arr i = (if i < 0 then i + ndim arr else i)"

text \<open>
  Python's slice \<^verbatim>\<open>xs[lo:hi]\<close> of a tuple, for integer bounds: a negative bound counts
  from the end, and both are clamped to the length. The specification writes the merged
  axes of an array as \<^verbatim>\<open>shape[b:e]\<close>.
\<close>

definition slice_index :: "nat \<Rightarrow> int \<Rightarrow> nat" where
  "slice_index n i = (if i < 0 then nat (max 0 (i + int n)) else min n (nat i))"

definition py_slice :: "'a list \<Rightarrow> int \<Rightarrow> int \<Rightarrow> 'a list" where
  "py_slice xs lo hi =
     take (slice_index (length xs) hi - slice_index (length xs) lo)
          (drop (slice_index (length xs) lo) xs)"

section \<open>decomp.py: the split point of tsvd\<close>

text \<open>
  Modelled from the spec: \<^verbatim>\<open>decomp.tsvd\<close> is not among the sources, only its test is.
  The specification validates \<open>1 \<le> nu \<le> ndim - 1\<close> first, groups the axes \<open>[0, nu)\<close>
  into rows and the remaining ones into columns, calls the dense SVD routine on the
  matrix, and ungroups the leading axis of both factors. The SVD routine is an external
  collaborator working on floating-point numbers; it is a parameter here, and \<open>None\<close>
  is its failure to converge.
\<close>

definition tsvd ::
  "('a ndarray \<Rightarrow> ('a ndarray \<times> 'a list \<times> 'a ndarray) option) \<Rightarrow> 'a ndarray \<Rightarrow> int
     \<Rightarrow> error + ('a ndarray \<times> 'a list \<times> 'a ndarray)" where
  "tsvd svd arr nu =
     (if \<not> (1 \<le> nu \<and> nu \<le> ndim arr - 1) then Inl InvalidSplitPoint
      else case group arr 0 nu of Inl err \<Rightarrow> Inl err | Inr rows \<Rightarrow>
           (case group rows 1 (ndim rows) of Inl err \<Rightarrow> Inl err | Inr m \<Rightarrow>
           (case svd m of None \<Rightarrow> Inl NumericalFailure | Some (u, s, v) \<Rightarrow>
           (case ungroup u 0 (map int (take (nat nu) (shape arr))) of
              Inl err \<Rightarrow> Inl err | Inr U \<Rightarrow>
           (case ungroup v 0 (map int (drop (nat nu) (shape arr))) of
              Inl err \<Rightarrow> Inl err | Inr V \<Rightarrow> Inr (U, s, V))))))"

section \<open>Auxiliary facts\<close>

subsection \<open>Products and filters over shapes\<close>

lemma filter_nonneg_map_int: "filter (\<lambda>d. 0 \<le> d) (map int xs) = map int xs"
  by (induction xs) auto

lemma filter_neg_map_int: "filter (\<lambda>d. d < 0) (map int xs) = []"
  by (induction xs) auto

lemma prod_list_map_int: "prod_list (map int xs) = int (prod_list xs)"
  by (induction xs) auto

lemma filter_nonneg_id: "\<forall>d\<in>set dims. (0::int) \<le> d \<Longrightarrow> filter (\<lambda>d. 0 \<le> d) dims = dims"
  by (induction dims) auto

lemma filter_neg_nil: "\<forall>d\<in>set dims. (0::int) \<le> d \<Longrightarrow> filter (\<lambda>d. d < 0) dims = []"
  by (induction dims) auto

lemma newshape_explicit:
  assumes "\<forall>d\<in>set dims. 0 \<le> d"
  shows "newshape arr dims =
           (if int (size_of arr) = prod_list dims then Inr (arr\<lparr>shape := map nat dims\<rparr>)
            else Inl ReshapeError)"
  using assms by (simp add: newshape_def Let_def filter_nonneg_id filter_neg_nil)

lemma reshape_explicit:
  assumes "\<forall>d\<in>set dims. 0 \<le> d" and "dims \<noteq> []"
  shows "reshape arr dims =
           (if int (size_of arr) = prod_list dims then Inr (arr\<lparr>shape := map nat dims\<rparr>)
            else Inl ReshapeError)"
  using assms(2) by (simp only: reshape_def newshape_explicit [OF assms(1)] if_False)

lemma reshape_infer:
  "reshape arr (map int pre @ [- 1] @ map int post) =
     (if prod_list pre * prod_list post = 0
         \<or> size_of arr mod (prod_list pre * prod_list post) \<noteq> 0
      then Inl ReshapeError
      else Inr (arr\<lparr>shape := pre @ [size_of arr div (prod_list pre * prod_list post)] @ post\<rparr>))"
proof -
  let ?k = "prod_list pre * prod_list post"
  have neg: "filter (\<lambda>d. d < 0) (map int pre @ [- 1] @ map int post) = [- 1]"
    by (simp add: filter_neg_map_int)
  have known: "prod_list (filter (\<lambda>d. 0 \<le> d) (map int pre @ [- 1] @ map int post)) = int ?k"
    by (simp add: filter_nonneg_map_int prod_list_map_int)
  have m: "int (size_of arr) mod int ?k = int (size_of arr mod ?k)"
    by (simp add: zmod_int)
  have d: "nat (int (size_of arr) div int ?k) = size_of arr div ?k"
    by (metis nat_int zdiv_int)
  have mp: "map (\<lambda>d. nat (if d < 0 then int (size_of arr) div int ?k else d))
              (map int pre @ [- 1] @ map int post)
            = pre @ [size_of arr div ?k] @ post"
    using d by (simp add: comp_def)
  show ?thesis
    unfolding reshape_def newshape_def Let_def neg known using m mp by (simp del: of_nat_mult)
qed

lemma prod_list_split3:
  "b \<le> e \<Longrightarrow> e \<le> length s \<Longrightarrow>
   prod_list s = prod_list (take b s) * prod_list (take (e - b) (drop b s)) * prod_list (drop e s)"
proof -
  assume be: "b \<le> e" and el: "e \<le> length s"
  have "s = take b s @ take (e - b) (drop b s) @ drop e s"
    using be el by (metis add_diff_inverse_nat append_take_drop_id drop_drop not_less add.commute)
  then have "prod_list s = prod_list (take b s @ take (e - b) (drop b s) @ drop e s)" by simp
  then show ?thesis by (simp only: prod_list.append mult.assoc)
qed

subsection \<open>What reshape can raise\<close>

lemma newshape_error:
  assumes "newshape arr dims = Inl err"
  shows "err = ReshapeError"
proof -
  let ?n = "length (filter (\<lambda>d. d < 0) dims)"
  consider "1 < ?n" | "?n = 1" | "?n = 0" by linarith
  then show ?thesis
  proof cases
    case 1
    with assms show ?thesis by (simp add: newshape_def Let_def)
  next
    case 2
    with assms show ?thesis
      by (cases "prod_list (filter (\<lambda>d. 0 \<le> d) dims) = 0
                  \<or> int (size_of arr) mod prod_list (filter (\<lambda>d. 0 \<le> d) dims) \<noteq> 0")
         (simp_all add: newshape_def Let_def)
  next
    case 3
    with assms show ?thesis
      by (cases "int (size_of arr) \<noteq> prod_list (filter (\<lambda>d. 0 \<le> d) dims)")
         (simp_all add: newshape_def Let_def)
  qed
qed

lemma reshape_error:
  "reshape arr dims = Inl err \<Longrightarrow> err = ReshapeError \<or> err = ReshapeTypeError"
  by (cases "dims = []") (auto simp: reshape_def dest: newshape_error)

lemma reshape_error_nonempty:
  "dims \<noteq> [] \<Longrightarrow> reshape arr dims = Inl err \<Longrightarrow> err = ReshapeError"
  by (auto simp: reshape_def dest: newshape_error)

lemma size_of_elems_update: "size_of (arr\<lparr>elems := xs\<rparr>) = size_of arr"
  by (simp add: size_of_def)

lemma newshape_elems_irrelevant:
  assumes "newshape arr dims = Inl err"
  shows "newshape (arr\<lparr>elems := xs\<rparr>) dims = Inl err"
proof -
  let ?n = "length (filter (\<lambda>d. d < 0) dims)"
  consider "1 < ?n" | "?n = 1" | "?n = 0" by linarith
  then show ?thesis
  proof cases
    case 1
    with assms show ?thesis by (simp add: newshape_def Let_def)
  next
    case 2
    with assms show ?thesis
      by (cases "prod_list (filter (\<lambda>d. 0 \<le> d) dims) = 0
                  \<or> int (size_of arr) mod prod_list (filter (\<lambda>d. 0 \<le> d) dims) \<noteq> 0")
         (simp_all add: newshape_def Let_def size_of_elems_update)
  next
    case 3
    with assms show ?thesis
      by (cases "int (size_of arr) \<noteq> prod_list (filter (\<lambda>d. 0 \<le> d) dims)")
         (simp_all add: newshape_def Let_def size_of_elems_update)
  qed
qed

lemma reshape_elems_irrelevant:
  "reshape arr dims = Inl err \<Longrightarrow> reshape (arr\<lparr>elems := xs\<rparr>) dims = Inl err"
  by (cases "dims = []") (auto simp: reshape_def dest: newshape_elems_irrelevant)

lemma group_error: "group arr b e = Inl err \<Longrightarrow> err = InvalidAxisRange \<or> err = ReshapeError"
  by (auto simp: group_def Let_def split: if_splits dest: reshape_error_nonempty [rotated])

lemma ungroup_error:
  "ungroup arr t split = Inl err \<Longrightarrow>
     err = InvalidAxisIndex \<or> err = ShapeMismatch \<or> err = ReshapeError
     \<or> err = ReshapeTypeError"
  by (auto simp: ungroup_def Let_def split: if_splits dest: reshape_error)

lemma prod_list_map_nat:
  "\<forall>d\<in>set ds. (0::int) \<le> d \<Longrightarrow> prod_list (map nat ds) = nat (prod_list ds)"
  by (induction ds) (auto simp: nat_mult_distrib)

subsection \<open>group and ungroup on valid arguments\<close>

lemma group_valid:
  assumes "0 \<le> normalized arr b" and "normalized arr b < normalized arr e"
    and "normalized arr e \<le> ndim arr"
  shows "group arr b e =
     (if 0 \<in> set (take (nat (normalized arr b)) (shape arr) @ drop (nat (normalized arr e)) (shape arr))
      then Inl ReshapeError
      else Inr (arr\<lparr>shape :=
             take (nat (normalized arr b)) (shape arr) @
             [prod_list (take (nat (normalized arr e) - nat (normalized arr b))
                              (drop (nat (normalized arr b)) (shape arr)))] @
             drop (nat (normalized arr e)) (shape arr)\<rparr>))"
proof -
  let ?s = "shape arr"
  let ?nb = "nat (normalized arr b)" and ?ne = "nat (normalized arr e)"
  let ?pre = "take ?nb ?s" and ?post = "drop ?ne ?s"
  let ?mid = "take (?ne - ?nb) (drop ?nb ?s)"
  let ?k = "prod_list ?pre * prod_list ?post"
  have le: "?nb \<le> ?ne" "?ne \<le> length ?s"
    using assms by (simp_all add: ndim_def)
  have sz: "size_of arr = prod_list ?pre * prod_list ?mid * prod_list ?post"
    unfolding size_of_def using prod_list_split3 [OF le] .
  then have sz': "size_of arr = prod_list ?mid * ?k"
    by (simp add: mult_ac)
  have k0: "?k = 0 \<longleftrightarrow> 0 \<in> set (?pre @ ?post)"
    by (simp add: prod_list_zero_iff)
  have g: "group arr b e = reshape arr (map int ?pre @ [- 1] @ map int ?post)"
    using assms by (simp add: group_def normalized_def Let_def)
  show ?thesis
  proof (cases "?k = 0")
    case True
    then show ?thesis using k0 by (simp only: g reshape_infer) simp
  next
    case False
    then have "size_of arr mod ?k = 0" "size_of arr div ?k = prod_list ?mid"
      using sz' by simp_all
    then show ?thesis using False k0 by (simp only: g reshape_infer) simp
  qed
qed

lemma ungroup_valid:
  assumes "0 \<le> normalized arr t" and "normalized arr t < ndim arr"
    and "prod_list split = int (shape arr ! nat (normalized arr t))"
    and "\<forall>d\<in>set split. 0 \<le> d"
    and "split \<noteq> [] \<or> 1 < length (shape arr)"
  shows "ungroup arr t split =
     Inr (arr\<lparr>shape := take (nat (normalized arr t)) (shape arr) @ map nat split @
                        drop (Suc (nat (normalized arr t))) (shape arr)\<rparr>)"
proof -
  let ?s = "shape arr"
  let ?n = "nat (normalized arr t)"
  let ?dims = "map int (take ?n ?s) @ split @ map int (drop (Suc ?n) ?s)"
  have lt: "?n < length ?s" using assms by (simp add: ndim_def)
  have "?s = take ?n ?s @ ?s ! ?n # drop (Suc ?n) ?s"
    using lt by (rule id_take_nth_drop)
  then have "prod_list ?s = prod_list (take ?n ?s @ ?s ! ?n # drop (Suc ?n) ?s)" by simp
  then have sz: "size_of arr = prod_list (take ?n ?s) * (?s ! ?n * prod_list (drop (Suc ?n) ?s))"
    by (simp only: size_of_def prod_list.append prod_list.Cons)
  have pd: "prod_list ?dims = int (size_of arr)"
    by (simp add: prod_list_map_int assms(3) sz)
  have nn: "\<forall>d\<in>set ?dims. 0 \<le> d" using assms(4) by auto
  have ne: "?dims \<noteq> []"
  proof (cases "split = []")
    case False
    then show ?thesis by simp
  next
    case True
    with assms(5) have "1 < length ?s" by simp
    then have "take ?n ?s \<noteq> [] \<or> drop (Suc ?n) ?s \<noteq> []" by auto
    then show ?thesis by auto
  qed
  have u: "ungroup arr t split = reshape arr ?dims"
    using assms(1-3) by (simp add: ungroup_def normalized_def Let_def)
  show ?thesis
    by (simp only: u reshape_explicit [OF nn ne] pd) (simp add: comp_def)
qed

lemma ungroup_unfold:
  "ungroup arr t split =
     (if \<not> (0 \<le> normalized arr t \<and> normalized arr t < ndim arr) then Inl InvalidAxisIndex
      else if int (shape arr ! nat (normalized arr t)) \<noteq> prod_list split then Inl ShapeMismatch
      else reshape arr (map int (take (nat (normalized arr t)) (shape arr)) @ split @
                        map int (drop (nat (normalized arr t) + 1) (shape arr))))"
  by (simp add: ungroup_def normalized_def Let_def)

lemma ungroup_no_argument:
  assumes "0 \<le> normalized arr t" and "normalized arr t < ndim arr"
    and "length (shape arr) = 1" and "shape arr ! nat (normalized arr t) = 1"
  shows "ungroup arr t [] = Inl ReshapeTypeError"
proof -
  have "nat (normalized arr t) = 0" using assms(1-3) by (simp add: ndim_def)
  with assms show ?thesis by (simp add: ungroup_unfold reshape_def)
qed

subsection \<open>The empty split\<close>

lemma ungroup_empty_split_cases:
  assumes "0 \<le> normalized T t" and "normalized T t < ndim T"
  shows "(shape T ! nat (normalized T t) \<noteq> 1 \<longrightarrow> ungroup T t [] = Inl ShapeMismatch)
       \<and> (shape T ! nat (normalized T t) = 1 \<and> 1 < length (shape T) \<longrightarrow>
            ungroup T t [] =
              Inr (T\<lparr>shape := take (nat (normalized T t)) (shape T) @
                                 drop (Suc (nat (normalized T t))) (shape T)\<rparr>))
       \<and> (shape T ! nat (normalized T t) = 1 \<and> length (shape T) = 1 \<longrightarrow>
            ungroup T t [] = Inl ReshapeTypeError)"
proof (intro conjI impI)
  assume "shape T ! nat (normalized T t) \<noteq> 1"
  with assms show "ungroup T t [] = Inl ShapeMismatch"
    by (simp add: ungroup_unfold)
next
  assume a: "shape T ! nat (normalized T t) = 1 \<and> 1 < length (shape T)"
  have "ungroup T t [] =
          Inr (T\<lparr>shape := take (nat (normalized T t)) (shape T) @ map nat [] @
                             drop (Suc (nat (normalized T t))) (shape T)\<rparr>)"
    using a by (intro ungroup_valid assms) simp_all
  then show "ungroup T t [] =
          Inr (T\<lparr>shape := take (nat (normalized T t)) (shape T) @
                             drop (Suc (nat (normalized T t))) (shape T)\<rparr>)"
    by simp
next
  assume "shape T ! nat (normalized T t) = 1 \<and> length (shape T) = 1"
  with assms show "ungroup T t [] = Inl ReshapeTypeError"
    by (intro ungroup_no_argument) simp_all
qed

subsection \<open>A reshape keeps the elements and the size\<close>

lemma prod_list_inferred:
  assumes "length (filter (\<lambda>d. d < 0) dims) = 1" and "0 \<le> q"
  shows "int (prod_list (map (\<lambda>d. nat (if d < 0 then q else d)) dims))
           = q * prod_list (filter (\<lambda>d. 0 \<le> d) dims)"
  using assms
proof (induction dims)
  case Nil
  then show ?case by simp
next
  case (Cons d ds)
  show ?case
  proof (cases "d < 0")
    case True
    with Cons.prems have "filter (\<lambda>d. d < 0) ds = []" by simp
    then have nn: "\<forall>x\<in>set ds. 0 \<le> x" by (auto simp: filter_empty_conv)
    then have m: "map (\<lambda>d. nat (if d < 0 then q else d)) ds = map nat ds" by auto
    have k: "prod_list (filter (\<lambda>d. 0 \<le> d) ds) = prod_list ds"
      using nn by (simp add: filter_nonneg_id)
    have p: "0 \<le> prod_list ds" using nn by (simp add: prod_list_nonneg)
    have "int (prod_list (map (\<lambda>d. nat (if d < 0 then q else d)) (d # ds)))
            = int (nat q * prod_list (map nat ds))"
      using True by (simp add: m)
    also have "\<dots> = q * prod_list ds"
      using Cons.prems(2) p by (simp add: prod_list_map_nat [OF nn])
    also have "\<dots> = q * prod_list (filter (\<lambda>d. 0 \<le> d) (d # ds))"
      using True by (simp add: k)
    finally show ?thesis .
  next
    case False
    with Cons.prems have "length (filter (\<lambda>d. d < 0) ds) = 1" by simp
    from Cons.IH [OF this Cons.prems(2)] False show ?thesis by simp
  qed
qed

lemma newshape_result:
  assumes "newshape arr dims = Inr r"
  shows "elems r = elems arr \<and> size_of r = size_of arr"
proof -
  let ?n = "length (filter (\<lambda>d. d < 0) dims)"
  let ?k = "prod_list (filter (\<lambda>d. 0 \<le> d) dims)"
  let ?s = "int (size_of arr)"
  consider "1 < ?n" | "?n = 1" | "?n = 0" by linarith
  then show ?thesis
  proof cases
    case 1
    with assms show ?thesis by (simp add: newshape_def Let_def)
  next
    case 2
    show ?thesis
    proof (cases "?k = 0 \<or> ?s mod ?k \<noteq> 0")
      case True
      with 2 assms show ?thesis by (simp add: newshape_def Let_def)
    next
      case False
      with 2 assms have r: "r = arr\<lparr>shape := map (\<lambda>d. nat (if d < 0 then ?s div ?k else d)) dims\<rparr>"
        by (simp add: newshape_def Let_def)
      have "0 \<le> ?k" by (rule prod_list_nonneg) simp
      then have q: "0 \<le> ?s div ?k" by (simp add: div_int_pos_iff)
      have "int (size_of r) = ?s div ?k * ?k"
        unfolding r using prod_list_inferred [OF 2 q] by (simp add: size_of_def)
      also have "\<dots> = ?s" using False by (simp add: mod_eq_0_iff_dvd)
      finally show ?thesis using r by simp
    qed
  next
    case 3
    then have nn: "\<forall>d\<in>set dims. 0 \<le> d" by (auto simp: filter_empty_conv not_less)
    from assms have r: "r = arr\<lparr>shape := map nat dims\<rparr>" and "?s = prod_list dims"
      by (simp_all add: newshape_explicit [OF nn] split: if_splits)
    then show ?thesis using prod_list_map_nat [OF nn] by (simp add: size_of_def)
  qed
qed

lemma reshape_result:
  "reshape arr dims = Inr r \<Longrightarrow> elems r = elems arr \<and> size_of r = size_of arr"
  by (cases "dims = []") (auto simp: reshape_def dest: newshape_result)

lemma group_result:
  "group arr b e = Inr r \<Longrightarrow> elems r = elems arr \<and> size_of r = size_of arr"
  by (auto simp: group_def Let_def split: if_splits dest: reshape_result)

lemma ungroup_result:
  "ungroup arr t split = Inr r \<Longrightarrow> elems r = elems arr \<and> size_of r = size_of arr"
  by (auto simp: ungroup_def Let_def split: if_splits dest: reshape_result)

lemma group_wf: "wf_ndarray arr \<Longrightarrow> group arr b e = Inr r \<Longrightarrow> wf_ndarray r"
  using group_result [of arr b e r] by (simp add: wf_ndarray_def)

lemma ungroup_wf: "wf_ndarray arr \<Longrightarrow> ungroup arr t split = Inr r \<Longrightarrow> wf_ndarray r"
  using ungroup_result [of arr t split r] by (simp add: wf_ndarray_def)

subsection \<open>Negative entries in a split\<close>

text \<open>
  An entry of \<^verbatim>\<open>split\<close> below zero never yields an array: with two of them the reshape
  refuses, and with one the product check forces the other entries to multiply to zero,
  which leaves nothing to infer the dimension from.
\<close>

lemma prod_list_known_zero:
  assumes "length (filter (\<lambda>d. d < 0) ds) = 1" and "(0::int) \<le> prod_list ds"
  shows "prod_list (filter (\<lambda>d. 0 \<le> d) ds) = 0"
  using assms
proof (induction ds)
  case Nil
  then show ?case by simp
next
  case (Cons d ds)
  show ?case
  proof (cases "d < 0")
    case True
    with Cons.prems have "filter (\<lambda>d. d < 0) ds = []" by simp
    then have nn: "\<forall>x\<in>set ds. 0 \<le> x" by (auto simp: filter_empty_conv)
    then have p: "0 \<le> prod_list ds" by (simp add: prod_list_nonneg)
    from Cons.prems(2) True have "prod_list ds \<le> 0"
      by (simp add: zero_le_mult_iff)
    with p have "prod_list ds = 0" by simp
    with True nn show ?thesis by (simp add: filter_nonneg_id)
  next
    case False
    with Cons.prems have one: "length (filter (\<lambda>d. d < 0) ds) = 1" by simp
    show ?thesis
    proof (cases "d = 0")
      case True
      then show ?thesis by simp
    next
      case False
      with \<open>\<not> d < 0\<close> Cons.prems(2) have "0 \<le> prod_list ds"
        by (simp add: zero_le_mult_iff)
      from Cons.IH [OF one this] \<open>\<not> d < 0\<close> show ?thesis by simp
    qed
  qed
qed

lemma reshape_known_zero:
  "length (filter (\<lambda>d. d < 0) dims) = 1 \<Longrightarrow> prod_list (filter (\<lambda>d. 0 \<le> d) dims) = 0
     \<Longrightarrow> reshape arr dims = Inl ReshapeError"
  by (auto simp: reshape_def newshape_def Let_def)

lemma reshape_two_unknown:
  "1 < length (filter (\<lambda>d. d < 0) dims) \<Longrightarrow> reshape arr dims = Inl ReshapeError"
  by (auto simp: reshape_def newshape_def Let_def)

lemma ungroup_negative_entry:
  assumes "\<exists>d\<in>set split. d < 0"
  shows "ungroup arr t split \<noteq> Inr r"
proof
  assume ok: "ungroup arr t split = Inr r"
  let ?n = "nat (normalized arr t)"
  let ?pre = "map int (take ?n (shape arr))" and ?post = "map int (drop (?n + 1) (shape arr))"
  let ?dims = "?pre @ split @ ?post"
  from ok have pr: "prod_list split = int (shape arr ! ?n)"
    and rs: "reshape arr ?dims = Inr r"
    by (simp_all add: ungroup_unfold split: if_splits)
  have cnt: "filter (\<lambda>d. d < 0) ?dims = filter (\<lambda>d. d < 0) split"
    by (simp add: filter_neg_map_int)
  from assms have pos: "0 < length (filter (\<lambda>d. d < 0) split)"
    by (simp add: filter_empty_conv)
  show False
  proof (cases "length (filter (\<lambda>d. d < 0) split) = 1")
    case True
    from pr have "0 \<le> prod_list split" by simp
    from prod_list_known_zero [OF True this]
    have z: "prod_list (filter (\<lambda>d. 0 \<le> d) ?dims) = 0" by simp
    from True have one: "length (filter (\<lambda>d. d < 0) ?dims) = 1" by (simp only: cnt)
    from reshape_known_zero [OF one z, of arr] rs show False by simp
  next
    case False
    with pos have "1 < length (filter (\<lambda>d. d < 0) ?dims)" unfolding cnt by linarith
    from reshape_two_unknown [OF this, of arr] rs show False by simp
  qed
qed

section \<open>Round trip: group, then ungroup\<close>

text \<open>
  C1 (as amended). Let \<open>b\<close> be given as a non-negative axis index and let the end index,
  after normalization, satisfy \<open>b < end \<le> ndim\<close>. If no axis outside the merged range
  has size zero, grouping the range and ungrouping axis \<open>b\<close> of the result with the
  merged part of the original shape, \<^verbatim>\<open>shape[b:e]\<close>, returns the original array: same
  shape, same elements.
\<close>

theorem group_ungroup_roundtrip:
  assumes "0 \<le> b" and "b < normalized T e" and "normalized T e \<le> ndim T"
    and "0 \<notin> set (take (nat b) (shape T) @ drop (nat (normalized T e)) (shape T))"
  shows "\<exists>G. group T b e = Inr G
             \<and> ungroup G b (map int (py_slice (shape T) b e)) = Inr T"
proof -
  let ?s = "shape T"
  let ?nb = "nat b" and ?ne = "nat (normalized T e)"
  let ?mid = "take (?ne - ?nb) (drop ?nb ?s)"
  let ?G = "T\<lparr>shape := take ?nb ?s @ [prod_list ?mid] @ drop ?ne ?s\<rparr>"
  have nb: "normalized T b = b" using assms(1) by (simp add: normalized_def)
  have le: "?nb < ?ne" "?ne \<le> length ?s"
    using assms by (simp_all add: ndim_def)
  have g: "group T b e = Inr ?G"
    using group_valid [of T b e] assms by (simp add: nb)
  have nbl: "?nb \<le> length ?s" using le by linarith
  have sl: "py_slice ?s b e = ?mid"
  proof -
    have "slice_index (length ?s) b = ?nb"
      using assms(1) nbl by (simp add: slice_index_def)
    moreover have "slice_index (length ?s) e = ?ne"
      using assms(1,2) le by (auto simp: slice_index_def normalized_def ndim_def)
    ultimately show ?thesis by (simp add: py_slice_def)
  qed
  have len: "length (take ?nb ?s) = ?nb" using nbl by simp
  have nG: "normalized ?G b = b" using assms(1) by (simp add: normalized_def)
  have inr: "b < ndim ?G" using nbl assms(1) by (simp add: ndim_def)
  have at: "shape ?G ! ?nb = prod_list ?mid"
    using len by (simp add: nth_append)
  have tk: "take ?nb (shape ?G) = take ?nb ?s" using len by simp
  have dr: "drop (Suc ?nb) (shape ?G) = drop ?ne ?s" using len by simp
  have whole: "take ?nb ?s @ ?mid @ drop ?ne ?s = ?s"
    using le by (metis add_diff_inverse_nat append_take_drop_id drop_drop less_imp_le_nat
        not_less add.commute)
  have p1: "0 \<le> normalized ?G b" using assms(1) by (simp only: nG)
  have p2: "normalized ?G b < ndim ?G" using inr by (simp only: nG)
  have p3: "prod_list (map int ?mid) = int (shape ?G ! nat (normalized ?G b))"
    by (simp only: nG at prod_list_map_int)
  have p4: "\<forall>d\<in>set (map int ?mid). 0 \<le> d" by simp
  have "0 < length ?mid" using le by simp
  then have p5: "map int ?mid \<noteq> [] \<or> 1 < length (shape ?G)" by auto
  have "ungroup ?G b (map int ?mid) =
          Inr (?G\<lparr>shape := take ?nb (shape ?G) @ map nat (map int ?mid) @
                              drop (Suc ?nb) (shape ?G)\<rparr>)"
    using ungroup_valid [OF p1 p2 p3 p4 p5] by (simp only: nG)
  then have "ungroup ?G b (map int ?mid) = Inr T"
    by (simp only: tk dr) (simp add: comp_def whole)
  with g sl show ?thesis by simp
qed

text \<open>
  The hypotheses hold for the specification's scenario: an array of shape \<open>(2, 3, 4)\<close>
  with the axes \<open>[1, 3)\<close> merged.
\<close>

theorem group_ungroup_roundtrip_witness:
  "(0::int) \<le> 1
   \<and> 1 < normalized \<lparr>shape = [2, 3, 4], elems = [0..<24]\<rparr> 3
   \<and> normalized \<lparr>shape = [2, 3, 4], elems = [0..<24]\<rparr> 3 \<le> ndim \<lparr>shape = [2, 3, 4], elems = [0..<24]\<rparr>
   \<and> 0 \<notin> set (take (nat 1) (shape \<lparr>shape = [2, 3, 4], elems = [0..<24]\<rparr>)
                  @ drop (nat (normalized \<lparr>shape = [2, 3, 4], elems = [0..<24]\<rparr> 3)) (shape \<lparr>shape = [2, 3, 4], elems = [0..<24]\<rparr>))
   \<and> (\<exists>G. group \<lparr>shape = [2, 3, 4], elems = [0..<24]\<rparr> 1 3 = Inr G
          \<and> ungroup G 1 (map int (py_slice (shape \<lparr>shape = [2, 3, 4], elems = [0..<24]\<rparr>) 1 3)) = Inr \<lparr>shape = [2, 3, 4], elems = [0..<24]\<rparr>)"
proof -
  let ?T = "\<lparr>shape = [2, 3, 4], elems = [0..<24]\<rparr>"
  have h1: "(0::int) \<le> 1" by simp
  have h2: "1 < normalized ?T 3" by (simp add: normalized_def)
  have h3: "normalized ?T 3 \<le> ndim ?T" by (simp add: normalized_def ndim_def)
  have h4: "0 \<notin> set (take (nat 1) (shape ?T) @ drop (nat (normalized ?T 3)) (shape ?T))"
    by (simp add: normalized_def)
  from group_ungroup_roundtrip [OF h1 h2 h3 h4] h1 h2 h3 h4 show ?thesis by blast
qed

text \<open>
  As the claim is stated, with \<open>b\<close> any index that is valid after normalization and any
  array, it fails in two ways. A negative \<open>b\<close> is normalized by \<^verbatim>\<open>ungroup\<close> against the
  number of axes of the grouped array, which is smaller: for shape \<open>(2, 3, 4)\<close>, \<open>b = -2\<close>
  and \<open>e = 3\<close> the grouped array has shape \<open>(2, 12)\<close>, and \<open>-2\<close> is then axis \<open>0\<close>
  of size \<open>2\<close>, not \<open>12\<close>. And for shape \<open>(2, 0)\<close> with the range \<open>[0, 1)\<close> the reshape
  inside \<^verbatim>\<open>group\<close> cannot infer the merged dimension.
\<close>

theorem group_ungroup_roundtrip_counterexample:
  "group \<lparr>shape = [2, 3, 4], elems = [0..<24]\<rparr> (- 2) 3 = Inr \<lparr>shape = [2, 12], elems = [0..<24]\<rparr>
   \<and> ungroup \<lparr>shape = [2, 12], elems = [0..<24]\<rparr> (- 2)
         (map int (py_slice (shape \<lparr>shape = [2, 3, 4], elems = [0..<24]\<rparr>) (- 2) 3)) = Inl ShapeMismatch
   \<and> group \<lparr>shape = [2, 0], elems = ([]::nat list)\<rparr> 0 1 = Inl ReshapeError"
  by (simp add: group_def ungroup_def reshape_def newshape_def ndim_def size_of_def py_slice_def
      slice_index_def Let_def)

section \<open>Shape of a grouped array\<close>

text \<open>
  C3. The claim promises the grouped shape for every valid range, also when an axis has
  size zero. The source passes \<^verbatim>\<open>-1\<close> for the merged axis, and numpy cannot infer it
  when the remaining axes multiply to zero: for an array of shape \<open>(0, 3)\<close> and the valid
  range \<open>[1, 2)\<close> the call is \<^verbatim>\<open>arr.reshape(0, -1)\<close>, which raises, where the claim has
  the shape \<open>(0, 3)\<close>. (Lemma \<open>group_valid\<close> has the shape law for every valid range
  whose outer axes are all non-empty.)
\<close>

theorem group_zero_size_axis_raises:
  "group \<lparr>shape = [0, 3], elems = ([]::int list)\<rparr> 1 2 = Inl ReshapeError"
  by (simp add: group_def reshape_def newshape_def ndim_def size_of_def Let_def)

section \<open>Range validation of group\<close>

text \<open>
  C4. \<^verbatim>\<open>group\<close> raises its range error exactly when the normalized indices violate
  \<open>0 \<le> begin < end \<le> ndim\<close>; so it does whenever the normalized begin is negative, is
  not below the normalized end, or the normalized end exceeds the number of axes; and a
  call that raises returns no array.
\<close>

theorem group_invalid_range_iff:
  "(group arr b e = Inl InvalidAxisRange \<longleftrightarrow>
      \<not> (0 \<le> normalized arr b \<and> normalized arr b < normalized arr e
         \<and> normalized arr e \<le> ndim arr))
   \<and> (normalized arr e \<le> normalized arr b \<or> normalized arr b < 0
        \<or> ndim arr < normalized arr e \<longrightarrow> group arr b e = Inl InvalidAxisRange)
   \<and> (group arr b e = Inl InvalidAxisRange \<longrightarrow> (\<forall>r. group arr b e \<noteq> Inr r))"
  by (auto simp: group_def normalized_def reshape_def newshape_def Let_def)

text \<open>An empty range, \<open>begin = end = 1\<close> on a matrix, is refused.\<close>

theorem group_invalid_range_iff_witness:
  "normalized \<lparr>shape = [2, 3], elems = [0..<6]\<rparr> 1
      \<le> normalized \<lparr>shape = [2, 3], elems = [0..<6]\<rparr> 1
   \<and> group \<lparr>shape = [2, 3], elems = [0..<6]\<rparr> 1 1 = Inl InvalidAxisRange
   \<and> (\<forall>r. group \<lparr>shape = [2, 3], elems = [0..<6]\<rparr> 1 1 \<noteq> Inr r)"
proof -
  let ?T = "\<lparr>shape = [2, 3], elems = [0..<6]\<rparr>"
  have h: "normalized ?T 1 \<le> normalized ?T 1" by simp
  from group_invalid_range_iff [of ?T 1 1] h show ?thesis by blast
qed

section \<open>Outcomes of ungroup\<close>

text \<open>
  C5 (as amended). \<^verbatim>\<open>ungroup\<close> raises its index error exactly when the normalized target
  is outside \<open>[0, ndim)\<close>; for a target in range it raises its shape-mismatch error
  exactly when the product of \<^verbatim>\<open>split\<close> differs from the size of the target axis; and
  when both checks pass, every entry of \<^verbatim>\<open>split\<close> is a positive size and the new shape
  has at least one and at most 32 axes, it returns the array with shape
  \<^verbatim>\<open>shape[:t] + tuple(split) + shape[t+1:]\<close>.
\<close>

theorem ungroup_outcomes:
  "(ungroup T t split = Inl InvalidAxisIndex \<longleftrightarrow>
      \<not> (0 \<le> normalized T t \<and> normalized T t < ndim T))
   \<and> (0 \<le> normalized T t \<and> normalized T t < ndim T \<longrightarrow>
        (ungroup T t split = Inl ShapeMismatch \<longleftrightarrow>
           prod_list split \<noteq> int (shape T ! nat (normalized T t))))
   \<and> (0 \<le> normalized T t \<and> normalized T t < ndim T
        \<and> prod_list split = int (shape T ! nat (normalized T t))
        \<and> (\<forall>d\<in>set split. 0 < d)
        \<and> 2 \<le> length (shape T) + length split
        \<and> length (shape T) + length split \<le> Suc NPY_MAXDIMS \<longrightarrow>
        ungroup T t split =
          Inr (T\<lparr>shape := take (nat (normalized T t)) (shape T) @ map nat split @
                             drop (Suc (nat (normalized T t))) (shape T)\<rparr>))"
proof (intro conjI impI)
  show "ungroup T t split = Inl InvalidAxisIndex \<longleftrightarrow>
          \<not> (0 \<le> normalized T t \<and> normalized T t < ndim T)"
    by (auto simp: ungroup_unfold dest: reshape_error)
next
  assume "0 \<le> normalized T t \<and> normalized T t < ndim T"
  then show "ungroup T t split = Inl ShapeMismatch \<longleftrightarrow>
          prod_list split \<noteq> int (shape T ! nat (normalized T t))"
    by (auto simp: ungroup_unfold dest: reshape_error)
next
  assume a: "0 \<le> normalized T t \<and> normalized T t < ndim T
        \<and> prod_list split = int (shape T ! nat (normalized T t))
        \<and> (\<forall>d\<in>set split. 0 < d)
        \<and> 2 \<le> length (shape T) + length split
        \<and> length (shape T) + length split \<le> Suc NPY_MAXDIMS"
  then have nn: "\<forall>d\<in>set split. 0 \<le> d" by auto
  from a have ne: "split \<noteq> [] \<or> 1 < length (shape T)" by auto
  from a nn ne show "ungroup T t split =
          Inr (T\<lparr>shape := take (nat (normalized T t)) (shape T) @ map nat split @
                             drop (Suc (nat (normalized T t))) (shape T)\<rparr>)"
    by (intro ungroup_valid) simp_all
qed

text \<open>Splitting the second axis of a \<open>(2, 12)\<close> array into \<open>(3, 4)\<close>.\<close>

theorem ungroup_outcomes_witness:
  "0 \<le> normalized \<lparr>shape = [2, 12], elems = [0..<24]\<rparr> 1
   \<and> normalized \<lparr>shape = [2, 12], elems = [0..<24]\<rparr> 1 < ndim \<lparr>shape = [2, 12], elems = [0..<24]\<rparr>
   \<and> prod_list [3, 4] = int (shape \<lparr>shape = [2, 12], elems = [0..<24]\<rparr> ! nat (normalized \<lparr>shape = [2, 12], elems = [0..<24]\<rparr> 1))
   \<and> (0::int) < 3 \<and> (0::int) < 4
   \<and> 2 \<le> length (shape \<lparr>shape = [2, 12], elems = [0..<24]\<rparr>) + length [3, 4::int]
   \<and> length (shape \<lparr>shape = [2, 12], elems = [0..<24]\<rparr>) + length [3, 4::int] \<le> Suc NPY_MAXDIMS
   \<and> ungroup \<lparr>shape = [2, 12], elems = [0..<24]\<rparr> 1 [3, 4] = Inr \<lparr>shape = [2, 3, 4], elems = [0..<24]\<rparr>"
proof -
  let ?G = "\<lparr>shape = [2, 12], elems = [0..<24]\<rparr>"
  have n: "normalized ?G 1 = 1" by (simp add: normalized_def)
  have h: "0 \<le> normalized ?G 1 \<and> normalized ?G 1 < ndim ?G
           \<and> prod_list [3, 4] = int (shape ?G ! nat (normalized ?G 1))
           \<and> (\<forall>d\<in>set [3, 4::int]. 0 < d)
           \<and> 2 \<le> length (shape ?G) + length [3, 4::int]
           \<and> length (shape ?G) + length [3, 4::int] \<le> Suc NPY_MAXDIMS"
    by (simp add: n ndim_def NPY_MAXDIMS_def)
  from ungroup_outcomes [of ?G 1 "[3, 4]"] h
  have "ungroup ?G 1 [3, 4] =
          Inr (?G\<lparr>shape := take (nat (normalized ?G 1)) (shape ?G) @ map nat [3, 4] @
                              drop (Suc (nat (normalized ?G 1))) (shape ?G)\<rparr>)"
    by blast
  then have "ungroup ?G 1 [3, 4] = Inr \<lparr>shape = [2, 3, 4], elems = [0..<24]\<rparr>" by (simp add: n)
  with h show ?thesis by simp
qed

text \<open>
  Without the condition on the entries the last part fails: for a one-element vector and
  \<^verbatim>\<open>split = (-1, -1)\<close> the target is in range and the product is the axis size, yet
  \<^verbatim>\<open>arr.reshape(-1, -1)\<close> raises and no array is returned. (No split with a negative
  entry yields an array: lemma \<open>ungroup_negative_entry\<close>.) The bound of one axis keeps
  the call \<^verbatim>\<open>arr.reshape()\<close> of C9 out of the statement, and the bound of 32 axes keeps
  the request within numpy's capacity.
\<close>

theorem ungroup_outcomes_counterexample:
  "0 \<le> normalized \<lparr>shape = [1], elems = [7::int]\<rparr> 0
   \<and> normalized \<lparr>shape = [1], elems = [7::int]\<rparr> 0 < ndim \<lparr>shape = [1], elems = [7::int]\<rparr>
   \<and> prod_list [- 1, - 1] = int (shape \<lparr>shape = [1], elems = [7::int]\<rparr> ! 0)
   \<and> ungroup \<lparr>shape = [1], elems = [7::int]\<rparr> 0 [- 1, - 1] = Inl ReshapeError"
  by (simp add: ungroup_def reshape_def newshape_def normalized_def ndim_def size_of_def Let_def)

section \<open>Split point of tsvd\<close>

text \<open>
  C6. For an array with at least two axes, \<^verbatim>\<open>tsvd\<close> fails with the split-point error
  exactly when \<open>nu\<close> is outside \<open>[1, ndim - 1]\<close>, whatever the SVD routine does; so it
  fails for \<open>nu = 0\<close> and for \<open>nu = ndim\<close>.
\<close>

theorem tsvd_split_point:
  assumes "2 \<le> ndim T"
  shows "(tsvd svd T nu = Inl InvalidSplitPoint \<longleftrightarrow> \<not> (1 \<le> nu \<and> nu \<le> ndim T - 1))
       \<and> tsvd svd T 0 = Inl InvalidSplitPoint
       \<and> tsvd svd T (ndim T) = Inl InvalidSplitPoint"
proof (intro conjI)
  show "tsvd svd T nu = Inl InvalidSplitPoint \<longleftrightarrow> \<not> (1 \<le> nu \<and> nu \<le> ndim T - 1)"
    by (auto simp: tsvd_def split: sum.splits option.splits dest: group_error ungroup_error)
  show "tsvd svd T 0 = Inl InvalidSplitPoint" by (simp add: tsvd_def)
  show "tsvd svd T (ndim T) = Inl InvalidSplitPoint" by (simp add: tsvd_def)
qed

text \<open>The test's input: the \<open>3 \<times> 3\<close> identity matrix with \<open>nu = 0\<close> and \<open>nu = 2\<close>.\<close>

theorem tsvd_split_point_witness:
  "2 \<le> ndim \<lparr>shape = [3, 3], elems = [1, 0, 0, 0, 1, 0, 0, 0, 1::int]\<rparr>
   \<and> tsvd (\<lambda>m. None) \<lparr>shape = [3, 3], elems = [1, 0, 0, 0, 1, 0, 0, 0, 1::int]\<rparr> 0 = Inl InvalidSplitPoint
   \<and> tsvd (\<lambda>m. None) \<lparr>shape = [3, 3], elems = [1, 0, 0, 0, 1, 0, 0, 0, 1::int]\<rparr> (ndim \<lparr>shape = [3, 3], elems = [1, 0, 0, 0, 1, 0, 0, 0, 1::int]\<rparr>) = Inl InvalidSplitPoint"
proof -
  let ?E = "\<lparr>shape = [3, 3], elems = [1, 0, 0, 0, 1, 0, 0, 0, 1::int]\<rparr>"
  have h: "2 \<le> ndim ?E" by (simp add: ndim_def)
  from tsvd_split_point [OF h, of "\<lambda>m. None" 0] h show ?thesis by blast
qed

section \<open>Negative axis indices\<close>

text \<open>
  C7. A negative index \<open>i\<close> with \<open>-ndim \<le> i < 0\<close> behaves as \<open>i + ndim\<close>, as begin and as
  end of \<^verbatim>\<open>group\<close> and as target of \<^verbatim>\<open>ungroup\<close>. The number of axes is added once only:
  an index below \<open>-ndim\<close> stays negative and is refused by the bounds check.
\<close>

theorem negative_index_normalization:
  "(- ndim T \<le> i \<and> i < 0 \<longrightarrow>
       group T i e = group T (i + ndim T) e
     \<and> group T b i = group T b (i + ndim T)
     \<and> ungroup T i split = ungroup T (i + ndim T) split)
   \<and> (i < - ndim T \<longrightarrow>
       group T i e = Inl InvalidAxisRange
     \<and> group T b i = Inl InvalidAxisRange
     \<and> ungroup T i split = Inl InvalidAxisIndex)"
  by (auto simp: group_def ungroup_def Let_def ndim_def)

text \<open>Index \<open>-1\<close> of a three-axis array stands for axis \<open>2\<close>; index \<open>-4\<close> is refused.\<close>

theorem negative_index_normalization_witness:
  "- ndim \<lparr>shape = [2, 3, 4], elems = [0..<24]\<rparr> \<le> - 1 \<and> (- 1::int) < 0
   \<and> group \<lparr>shape = [2, 3, 4], elems = [0..<24]\<rparr> (- 1) 3 = group \<lparr>shape = [2, 3, 4], elems = [0..<24]\<rparr> (- 1 + ndim \<lparr>shape = [2, 3, 4], elems = [0..<24]\<rparr>) 3
   \<and> group \<lparr>shape = [2, 3, 4], elems = [0..<24]\<rparr> 0 (- 1) = group \<lparr>shape = [2, 3, 4], elems = [0..<24]\<rparr> 0 (- 1 + ndim \<lparr>shape = [2, 3, 4], elems = [0..<24]\<rparr>)
   \<and> ungroup \<lparr>shape = [2, 3, 4], elems = [0..<24]\<rparr> (- 1) [2, 2] = ungroup \<lparr>shape = [2, 3, 4], elems = [0..<24]\<rparr> (- 1 + ndim \<lparr>shape = [2, 3, 4], elems = [0..<24]\<rparr>) [2, 2]
   \<and> - 4 < - ndim \<lparr>shape = [2, 3, 4], elems = [0..<24]\<rparr>
   \<and> group \<lparr>shape = [2, 3, 4], elems = [0..<24]\<rparr> (- 4) 3 = Inl InvalidAxisRange
   \<and> ungroup \<lparr>shape = [2, 3, 4], elems = [0..<24]\<rparr> (- 4) [2, 2] = Inl InvalidAxisIndex"
proof -
  let ?T = "\<lparr>shape = [2, 3, 4], elems = [0..<24]\<rparr>"
  have h1: "- ndim ?T \<le> - 1 \<and> (- 1::int) < 0" by (simp add: ndim_def)
  have h2: "- 4 < - ndim ?T" by (simp add: ndim_def)
  from negative_index_normalization [of ?T "- 1" 3 0 "[2, 2]"]
       negative_index_normalization [of ?T "- 4" 3 0 "[2, 2]"] h1 h2
  show ?thesis by blast
qed

section \<open>Round trip: ungroup, then group\<close>

text \<open>
  C8 (as amended). Let \<open>t\<close> be an axis index in \<open>[0, ndim)\<close> and \<^verbatim>\<open>split\<close> a non-empty
  sequence of positive sizes whose product is the size of axis \<open>t\<close>. If no other axis
  has size zero and the ungrouped array has at most 32 axes, ungrouping axis \<open>t\<close> and
  grouping the axes \<open>[t, t + len(split))\<close> of the result returns the original array.
\<close>

theorem ungroup_group_roundtrip:
  assumes "0 \<le> t" and "t < ndim T"
    and "prod_list split = int (shape T ! nat t)"
    and "split \<noteq> []" and "\<forall>d\<in>set split. 0 < d"
    and "0 \<notin> set (take (nat t) (shape T) @ drop (Suc (nat t)) (shape T))"
    and "length (shape T) + length split \<le> Suc NPY_MAXDIMS"
  shows "\<exists>U. ungroup T t split = Inr U
             \<and> group U t (t + int (length split)) = Inr T"
proof -
  have nn: "\<forall>d\<in>set split. 0 \<le> d" using assms(5) by auto
  let ?s = "shape T"
  let ?n = "nat t"
  let ?U = "T\<lparr>shape := take ?n ?s @ map nat split @ drop (Suc ?n) ?s\<rparr>"
  let ?e = "t + int (length split)"
  have nt: "normalized T t = t" using assms(1) by (simp add: normalized_def)
  have lt: "?n < length ?s" using assms by (simp add: ndim_def)
  have u: "ungroup T t split = Inr ?U"
    using ungroup_valid [of T t split] assms(1-4) nn by (simp add: nt)
  have nb: "normalized ?U t = t" and ne: "normalized ?U ?e = ?e"
    using assms(1) by (simp_all add: normalized_def)
  have ne': "nat ?e = ?n + length split" using assms(1) by (simp add: nat_add_distrib)
  have len: "length (take ?n ?s) = ?n" using lt by simp
  have tk: "take ?n (shape ?U) = take ?n ?s" using len by simp
  have dr: "drop (?n + length split) (shape ?U) = drop (Suc ?n) ?s" using len by simp
  have mid: "take (?n + length split - ?n) (drop ?n (shape ?U)) = map nat split"
    using len by simp
  have valid: "t < ?e" "?e \<le> ndim ?U"
    using assms(1,4) lt by (simp_all add: ndim_def)
  have pm: "prod_list (map nat split) = ?s ! ?n"
    using prod_list_map_nat [OF nn] assms(3) by simp
  have whole: "take ?n ?s @ ?s ! ?n # drop (Suc ?n) ?s = ?s"
    using id_take_nth_drop [OF lt] by simp
  have q1: "0 \<le> normalized ?U t" using assms(1) by (simp only: nb)
  have q2: "normalized ?U t < normalized ?U ?e" using valid(1) by (simp only: nb ne)
  have q3: "normalized ?U ?e \<le> ndim ?U" using valid(2) by (simp only: ne)
  have q4: "0 \<notin> set (take (nat (normalized ?U t)) (shape ?U) @
                         drop (nat (normalized ?U ?e)) (shape ?U))"
    using assms(6) by (simp only: nb ne ne' tk dr simp_thms)
  have "group ?U t ?e =
          Inr (?U\<lparr>shape := take ?n (shape ?U) @
                 [prod_list (take (?n + length split - ?n) (drop ?n (shape ?U)))] @
                 drop (?n + length split) (shape ?U)\<rparr>)"
    using group_valid [OF q1 q2 q3] q4 by (simp only: nb ne ne' if_False)
  then have "group ?U t ?e = Inr T"
    by (simp only: tk dr mid pm) (simp add: whole)
  with u show ?thesis by simp
qed

text \<open>Axis \<open>1\<close> of a \<open>(2, 12)\<close> array, split into \<open>(3, 4)\<close> and merged again.\<close>

theorem ungroup_group_roundtrip_witness:
  "(0::int) \<le> 1 \<and> 1 < ndim \<lparr>shape = [2, 12], elems = [0..<24]\<rparr>
   \<and> prod_list [3, 4] = int (shape \<lparr>shape = [2, 12], elems = [0..<24]\<rparr> ! nat 1)
   \<and> [3, 4::int] \<noteq> [] \<and> (0::int) < 3 \<and> (0::int) < 4
   \<and> 0 \<notin> set (take (nat 1) (shape \<lparr>shape = [2, 12], elems = [0..<24]\<rparr>) @ drop (Suc (nat 1)) (shape \<lparr>shape = [2, 12], elems = [0..<24]\<rparr>))
   \<and> length (shape \<lparr>shape = [2, 12], elems = [0..<24]\<rparr>) + length [3, 4::int] \<le> Suc NPY_MAXDIMS
   \<and> (\<exists>U. ungroup \<lparr>shape = [2, 12], elems = [0..<24]\<rparr> 1 [3, 4] = Inr U
          \<and> group U 1 (1 + int (length [3, 4::int])) = Inr \<lparr>shape = [2, 12], elems = [0..<24]\<rparr>)"
proof -
  let ?G = "\<lparr>shape = [2, 12], elems = [0..<24]\<rparr>"
  have h1: "(0::int) \<le> 1" by simp
  have h2: "1 < ndim ?G" by (simp add: ndim_def)
  have h3: "prod_list [3, 4] = int (shape ?G ! nat 1)" by simp
  have h4: "[3, 4::int] \<noteq> []" by simp
  have h5: "\<forall>d\<in>set [3, 4::int]. 0 < d" by simp
  have h6: "0 \<notin> set (take (nat 1) (shape ?G) @ drop (Suc (nat 1)) (shape ?G))" by simp
  have h7: "length (shape ?G) + length [3, 4::int] \<le> Suc NPY_MAXDIMS"
    by (simp add: NPY_MAXDIMS_def)
  from ungroup_group_roundtrip [OF h1 h2 h3 h4 h5 h6 h7] h1 h2 h3 h4 h6 h7
  show ?thesis by simp
qed

text \<open>
  The claim includes the empty split, where it fails: ungrouping the second axis of a
  \<open>(2, 1)\<close> array with \<^verbatim>\<open>split = ()\<close> removes the axis, and the following
  \<^verbatim>\<open>group(_, 1, 1)\<close> is an empty range, which the range check refuses. It also fails
  for a split with negative entries of the right product, which \<^verbatim>\<open>reshape\<close> refuses,
  and when another axis has size zero, where \<^verbatim>\<open>group\<close> cannot infer the merged
  dimension.
\<close>

theorem ungroup_group_roundtrip_counterexample:
  "ungroup \<lparr>shape = [2, 1], elems = [5, 6::int]\<rparr> 1 [] = Inr \<lparr>shape = [2], elems = [5, 6]\<rparr>
   \<and> group \<lparr>shape = [2], elems = [5, 6::int]\<rparr> 1 (1 + int (length ([]::int list)))
       = Inl InvalidAxisRange
   \<and> ungroup \<lparr>shape = [6], elems = [1, 2, 3, 4, 5, 6::int]\<rparr> 0 [- 2, - 3]
       = Inl ReshapeError
   \<and> ungroup \<lparr>shape = [0, 6], elems = ([]::int list)\<rparr> 1 [2, 3]
       = Inr \<lparr>shape = [0, 2, 3], elems = []\<rparr>
   \<and> group \<lparr>shape = [0, 2, 3], elems = ([]::int list)\<rparr> 1 (1 + int (length [2, 3::int]))
       = Inl ReshapeError"
  by (simp add: group_def ungroup_def reshape_def newshape_def ndim_def size_of_def Let_def)

section \<open>Empty split\<close>

text \<open>
  C9. The claim has \<^verbatim>\<open>ungroup\<close> with the empty split return the array without the target
  axis whenever that axis has size one. For an array with further axes it does (lemma
  \<open>ungroup_empty_split_cases\<close>). For a vector of one element no axis is left, and the
  source's call \<^verbatim>\<open>arr.reshape(*shape[:0], *(), *shape[1:])\<close> has no argument at all:
  \<^verbatim>\<open>arr.reshape()\<close> raises \<^verbatim>\<open>TypeError\<close>, where the claim has an array of shape \<open>()\<close>.
\<close>

theorem ungroup_empty_split_vector_raises:
  "ungroup \<lparr>shape = [1], elems = [7::int]\<rparr> 0 [] = Inl ReshapeTypeError"
  by (simp add: ungroup_def reshape_def ndim_def Let_def)

section \<open>Order of validation in ungroup\<close>

text \<open>
  C10. \<^verbatim>\<open>ungroup\<close> checks the target first: a target outside \<open>[0, ndim)\<close> after
  normalization raises the index error whatever \<^verbatim>\<open>split\<close> holds. A call that fails
  validation returns no array, and a failure is decided without the elements: the same
  call on an array of the same shape with any other elements fails the same way. The
  embedding is a function of values, as the source assigns to no part of its argument.
\<close>

theorem ungroup_validation_order:
  "(\<not> (0 \<le> normalized T t \<and> normalized T t < ndim T) \<longrightarrow>
      ungroup T t split = Inl InvalidAxisIndex)
   \<and> (ungroup T t split = Inl InvalidAxisIndex \<or> ungroup T t split = Inl ShapeMismatch \<longrightarrow>
        (\<forall>U. ungroup T t split \<noteq> Inr U))
   \<and> (ungroup T t split = Inl err \<longrightarrow> ungroup (T\<lparr>elems := xs\<rparr>) t split = Inl err)"
proof (intro conjI impI)
  assume "\<not> (0 \<le> normalized T t \<and> normalized T t < ndim T)"
  then show "ungroup T t split = Inl InvalidAxisIndex"
    by (simp only: ungroup_unfold simp_thms if_True)
next
  assume "ungroup T t split = Inl InvalidAxisIndex \<or> ungroup T t split = Inl ShapeMismatch"
  then show "\<forall>U. ungroup T t split \<noteq> Inr U" by auto
next
  assume a: "ungroup T t split = Inl err"
  let ?T' = "T\<lparr>elems := xs\<rparr>"
  let ?dims = "map int (take (nat (normalized T t)) (shape T)) @ split @
               map int (drop (nat (normalized T t) + 1) (shape T))"
  have same: "ndim ?T' = ndim T" "normalized ?T' t = normalized T t" "shape ?T' = shape T"
    by (simp_all add: ndim_def normalized_def)
  show "ungroup ?T' t split = Inl err"
  proof (cases "0 \<le> normalized T t \<and> normalized T t < ndim T")
    case False
    then have "ungroup T t split = Inl InvalidAxisIndex"
      and "ungroup ?T' t split = Inl InvalidAxisIndex"
      by (simp_all only: ungroup_unfold same simp_thms if_True)
    with a show ?thesis by simp
  next
    case inr: True
    show ?thesis
    proof (cases "int (shape T ! nat (normalized T t)) = prod_list split")
      case False
      with inr have "ungroup T t split = Inl ShapeMismatch"
        and "ungroup ?T' t split = Inl ShapeMismatch"
        by (simp_all only: ungroup_unfold same simp_thms if_True if_False)
      with a show ?thesis by simp
    next
      case True
      with inr have "ungroup T t split = reshape T ?dims"
        and "ungroup ?T' t split = reshape ?T' ?dims"
        by (simp_all only: ungroup_unfold same simp_thms if_True if_False)
      with a reshape_elems_irrelevant [of T ?dims err xs] show ?thesis by simp
    qed
  qed
qed

text \<open>Target \<open>5\<close> on a vector, with a split whose product would not match either.\<close>

theorem ungroup_validation_order_witness:
  "\<not> (0 \<le> normalized \<lparr>shape = [6], elems = [1, 2, 3, 4, 5, 6::int]\<rparr> 5 \<and> normalized \<lparr>shape = [6], elems = [1, 2, 3, 4, 5, 6::int]\<rparr> 5 < ndim \<lparr>shape = [6], elems = [1, 2, 3, 4, 5, 6::int]\<rparr>)
   \<and> prod_list [4, 4] \<noteq> int (size_of \<lparr>shape = [6], elems = [1, 2, 3, 4, 5, 6::int]\<rparr>)
   \<and> ungroup \<lparr>shape = [6], elems = [1, 2, 3, 4, 5, 6::int]\<rparr> 5 [4, 4] = Inl InvalidAxisIndex
   \<and> (\<forall>U. ungroup \<lparr>shape = [6], elems = [1, 2, 3, 4, 5, 6::int]\<rparr> 5 [4, 4] \<noteq> Inr U)
   \<and> ungroup (\<lparr>shape = [6], elems = [1, 2, 3, 4, 5, 6::int]\<rparr>\<lparr>elems := [9, 9, 9, 9, 9, 9]\<rparr>) 5 [4, 4] = Inl InvalidAxisIndex"
proof -
  let ?V = "\<lparr>shape = [6], elems = [1, 2, 3, 4, 5, 6::int]\<rparr>"
  have h: "\<not> (0 \<le> normalized ?V 5 \<and> normalized ?V 5 < ndim ?V)"
    by (simp add: normalized_def ndim_def)
  have p: "prod_list [4, 4] \<noteq> int (size_of ?V)" by (simp add: size_of_def)
  from ungroup_validation_order [of ?V 5 "[4, 4]" InvalidAxisIndex "[9, 9, 9, 9, 9, 9]"] h p
  show ?thesis by blast
qed

end
